theory Spec2Isabelle
  imports Complex_Main
begin

section \<open>String primitives of the JavaScript runtime\<close>

text \<open>
  A JavaScript string is modelled as a \<^typ>\<open>string\<close>: the list of the bytes of its
  UTF-8 encoding, an ASCII character being one byte. The client uses \<^verbatim>\<open>split('-')\<close>,
  \<^verbatim>\<open>includes\<close>, \<^verbatim>\<open>toLowerCase\<close>, \<^verbatim>\<open>padStart(2, '0')\<close>, \<^verbatim>\<open>String(n)\<close> on integers,
  and template literals (concatenation). All of them but \<^verbatim>\<open>toLowerCase\<close> only compare
  and copy characters; \<^verbatim>\<open>toLowerCase\<close> is the case conversion of Unicode and is
  modelled code point by code point, below.
\<close>

text \<open>\<^verbatim>\<open>s.split(sep)\<close> for a separator of one character: the pieces between the
  separators, empty pieces included; the empty string gives one empty piece.\<close>

fun js_split :: "char \<Rightarrow> string \<Rightarrow> string list" where
  "js_split sep [] = [[]]"
| "js_split sep (c # cs) =
     (if c = sep then [] # js_split sep cs
      else (case js_split sep cs of [] \<Rightarrow> [[c]] | p # ps \<Rightarrow> (c # p) # ps))"

text \<open>\<^verbatim>\<open>s.startsWith(t)\<close> and \<^verbatim>\<open>s.includes(t)\<close>: \<open>t\<close> occurs in \<open>s\<close> at the front,
  respectively at some position.\<close>

fun startsWith :: "string \<Rightarrow> string \<Rightarrow> bool" where
  "startsWith s [] = True"
| "startsWith [] (t # ts) = False"
| "startsWith (c # cs) (t # ts) = (c = t \<and> startsWith cs ts)"

fun js_includes :: "string \<Rightarrow> string \<Rightarrow> bool" where
  "js_includes [] t = (t = [])"
| "js_includes (c # cs) t = (startsWith (c # cs) t \<or> js_includes cs t)"

subsection \<open>toLowerCase\<close>

text \<open>The code points of a string. An ASCII byte is a code point of its own; any other
  code point is a lead byte with the continuation bytes (\<open>0x80\<close> to \<open>0xBF\<close>) that follow
  it.\<close>

definition ascii :: "char \<Rightarrow> bool" where
  "ascii c = ((of_char c :: nat) < 128)"

definition continuation :: "char \<Rightarrow> bool" where
  "continuation c = (128 \<le> (of_char c :: nat) \<and> (of_char c :: nat) < 192)"

function code_points :: "string \<Rightarrow> string list" where
  "code_points [] = []"
| "code_points (c # cs) =
     (if ascii c then [c] # code_points cs
      else (c # takeWhile continuation cs) # code_points (dropWhile continuation cs))"
  by pat_completeness auto
termination
  by (relation "measure length") (auto simp: less_Suc_eq_le length_dropWhile_le)

text \<open>\<^verbatim>\<open>s.toLowerCase()\<close> converts each code point by the lowercase mapping of Unicode.
  On ASCII it turns the capitals \<open>A\<close> to \<open>Z\<close> (65 to 90) into the small letters and
  keeps the rest. Two code points beyond ASCII have a mapping that contains an ASCII
  letter: the Kelvin sign U+212A becomes \<open>k\<close>, and the capital I with dot above U+0130
  becomes \<open>i\<close> followed by the combining dot above U+0307. The mapping of every other
  code point is a table of the runtime, which may look at the code points before and
  after (the final sigma does); it is the parameter \<open>lowerOther\<close>.\<close>

definition kelvin_sign :: string where
  "kelvin_sign = [CHR 0xE2, CHR 0x84, CHR 0xAA]"

definition capital_I_dot :: string where
  "capital_I_dot = [CHR 0xC4, CHR 0xB0]"

definition combining_dot :: string where
  "combining_dot = [CHR 0xCC, CHR 0x87]"

definition lower_char :: "char \<Rightarrow> char" where
  "lower_char c =
     (if 65 \<le> (of_char c :: nat) \<and> (of_char c :: nat) \<le> 90
      then char_of (of_char c + 32 :: nat) else c)"

type_synonym other_lowering = "string list \<Rightarrow> string \<Rightarrow> string list \<Rightarrow> string"

definition lower_point :: "other_lowering \<Rightarrow> string list \<Rightarrow> string \<Rightarrow> string list \<Rightarrow> string" where
  "lower_point lowerOther preceding cp following =
     (if length cp = 1 \<and> ascii (hd cp) then [lower_char (hd cp)]
      else if cp = kelvin_sign then ''k''
      else if cp = capital_I_dot then CHR ''i'' # combining_dot
      else lowerOther preceding cp following)"

fun lower_points :: "other_lowering \<Rightarrow> string list \<Rightarrow> string list \<Rightarrow> string" where
  "lower_points lowerOther preceding [] = []"
| "lower_points lowerOther preceding (cp # following) =
     lower_point lowerOther preceding cp following
     @ lower_points lowerOther (preceding @ [cp]) following"

definition toLowerCase :: "other_lowering \<Rightarrow> string \<Rightarrow> string" where
  "toLowerCase lowerOther s = lower_points lowerOther [] (code_points s)"

text \<open>\<^verbatim>\<open>s.padStart(n, c)\<close> for a pad string of one character.\<close>

definition padStart :: "nat \<Rightarrow> char \<Rightarrow> string \<Rightarrow> string" where
  "padStart n c s = replicate (n - length s) c @ s"

text \<open>\<^verbatim>\<open>String(n)\<close> for an integer \<open>n\<close>: its decimal digits, with a minus sign when
  negative.\<close>

fun string_of_nat :: "nat \<Rightarrow> string" where
  "string_of_nat n =
     (if n < 10 then [''0123456789'' ! n]
      else string_of_nat (n div 10) @ [''0123456789'' ! (n mod 10)])"

declare string_of_nat.simps [simp del]

definition string_of_int :: "int \<Rightarrow> string" where
  "string_of_int i = (if i < 0 then CHR ''-'' # string_of_nat (nat (- i)) else string_of_nat (nat i))"

text \<open>The operator \<^verbatim>\<open>||\<close> as the constructor uses it: the left operand unless it is
  falsy (\<^verbatim>\<open>undefined\<close>, the empty string, the number 0, \<^verbatim>\<open>false\<close>). An optional
  property is an \<^typ>\<open>'a option\<close>, \<open>None\<close> being \<^verbatim>\<open>undefined\<close>. Numbers are
  \<^typ>\<open>real\<close>; \<^verbatim>\<open>NaN\<close>, which is falsy too, has no counterpart there.\<close>

definition or_string :: "string option \<Rightarrow> string \<Rightarrow> string" where
  "or_string v d = (case v of None \<Rightarrow> d | Some s \<Rightarrow> if s = [] then d else s)"

definition or_number :: "real option \<Rightarrow> real \<Rightarrow> real" where
  "or_number v d = (case v of None \<Rightarrow> d | Some n \<Rightarrow> if n = 0 then d else n)"

definition or_boolean :: "bool option \<Rightarrow> bool \<Rightarrow> bool" where
  "or_boolean v d = (case v of None \<Rightarrow> d | Some b \<Rightarrow> if b then b else d)"

text \<open>\<^verbatim>\<open>v || undefined\<close> on an optional string.\<close>

definition or_undefined :: "string option \<Rightarrow> string option" where
  "or_undefined v = (case v of None \<Rightarrow> None | Some s \<Rightarrow> if s = [] then None else Some s)"


section \<open>Data model (types.ts)\<close>

text \<open>A \<^verbatim>\<open>Date\<close> object, seen through the three getters the client calls, in local
  time: \<^verbatim>\<open>getFullYear()\<close>, \<^verbatim>\<open>getMonth()\<close> (January is 0) and \<^verbatim>\<open>getDate()\<close>. An invalid
  date (\<^verbatim>\<open>new Date('x')\<close>) answers \<^verbatim>\<open>NaN\<close> to all three.\<close>

datatype Date = Date int nat nat | Invalid_Date

text \<open>The type \<^verbatim>\<open>Date | string\<close> of the request's dates.\<close>

datatype date_arg = DateObject Date | DateString string

record MealViewerSchool =
  name :: string
  address :: string
  city :: string
  state :: "string option"
  latitude :: "real option"
  longitude :: "real option"

record NutritionFacts =
  calories :: real
  protein :: "real option"
  carbohydrates :: "real option"
  fat :: "real option"
  sodium :: "real option"
  sugar :: "real option"
  fiber :: "real option"

record MenuItem =
  name :: string
  altName :: "string option"
  description :: "string option"
  type :: string
  servingSize :: string
  nutrition :: "NutritionFacts option"
  allergens :: "string list option"

record CafeteriaLine =
  name :: string
  items :: "MenuItem list"

datatype meal_period = Breakfast | Lunch | Dinner | Snack

record MenuBlock =
  mealPeriod :: meal_period
  cafeteriaLines :: "CafeteriaLine list"

record DailyMenu =
  date :: Date
  school :: MealViewerSchool
  meals :: "MenuBlock list"

record GetMenuRequest =
  schoolName :: string
  startDate :: date_arg
  endDate :: "date_arg option"

record GetMenuResponse =
  menus :: "DailyMenu list"
  school :: MealViewerSchool

datatype error_code = SCHOOL_NOT_FOUND | API_ERROR | INVALID_DATE | NETWORK_ERROR

record MealViewerError =
  message :: string
  code :: error_code

subsection \<open>The raw response\<close>

text \<open>The objects \<^verbatim>\<open>{ data: [...] }\<close> that wrap the raw arrays. The raw
  \<^verbatim>\<open>nutritionals\<close> and \<^verbatim>\<open>allergens\<close> of a food item have type \<^verbatim>\<open>any\<close> and are never
  read; they are left out.\<close>

record 'a DataList =
  data :: "'a list"

record RawFoodItem =
  item_Name :: string
  item_AltName :: "string option"
  description :: "string option"
  item_Type :: string
  serving_Size :: string

record RawCafeteriaLine =
  name :: string
  foodItemList :: "RawFoodItem DataList"

record RawMenuBlock =
  blockName :: string
  cafeteriaLineList :: "RawCafeteriaLine DataList"

record DateInformation =
  dateFull :: string

record RawMenuSchedule =
  dateInformation :: DateInformation
  menuBlocks :: "RawMenuBlock list"

record PhysicalLocation =
  name :: string
  address :: string
  city :: string
  state :: "string option"
  latitude :: "real option"
  longitude :: "real option"

record RawMealViewerResponse =
  physicalLocation :: PhysicalLocation
  menuSchedules :: "RawMenuSchedule list"


section \<open>The client (MealViewerClient.ts)\<close>

subsection \<open>Construction\<close>

record MealViewerClientConfig =
  baseURL :: "string option"
  timeout :: "real option"
  userAgent :: "string option"
  debug :: "bool option"

text \<open>The argument of \<^verbatim>\<open>axios.create\<close>; \<open>headers\<close> is the object literal with its
  one key.\<close>

record AxiosCreateConfig =
  baseURL :: string
  timeout :: real
  headers :: "(string \<times> string) list"

text \<open>The two private fields of the client. \<open>axios\<close> stands for the instance made
  from that configuration.\<close>

record MealViewerClient =
  axios :: AxiosCreateConfig
  debug :: bool

definition constructor :: "MealViewerClientConfig \<Rightarrow> MealViewerClient" where
  "constructor config =
     \<lparr> axios =
         \<lparr> AxiosCreateConfig.baseURL =
             or_string (MealViewerClientConfig.baseURL config) ''https://api.mealviewer.com/api/v4'',
           AxiosCreateConfig.timeout =
             or_number (MealViewerClientConfig.timeout config) 30000,
           headers =
             [(''User-Agent'',
               or_string (userAgent config) ''BrandCast/FamilyCast MealViewer Integration'')] \<rparr>,
       MealViewerClient.debug = or_boolean (MealViewerClientConfig.debug config) False \<rparr>"

subsection \<open>formatDate\<close>

text \<open>A thrown \<^verbatim>\<open>MealViewerError\<close> is the left summand of the result.\<close>

fun formatDate :: "date_arg \<Rightarrow> MealViewerError + string" where
  "formatDate (DateString dateStr) =
     (let parts = js_split CHR ''-'' dateStr in
      if length parts \<noteq> 3 then
        Inl \<lparr> message = ''Invalid date format: '' @ dateStr @ ''. Expected YYYY-MM-DD'',
              code = INVALID_DATE \<rparr>
      else
        (let year = parts ! 0; month = parts ! 1; day = parts ! 2 in
         Inr (month @ ''-'' @ day @ ''-'' @ year)))"
| "formatDate (DateObject (Date fullYear month0 dayOfMonth)) =
     (let month = padStart 2 CHR ''0'' (string_of_nat (month0 + 1));
          day = padStart 2 CHR ''0'' (string_of_nat dayOfMonth);
          year = string_of_int fullYear in
      Inr (month @ ''-'' @ day @ ''-'' @ year))"
| "formatDate (DateObject Invalid_Date) =
     (let month = padStart 2 CHR ''0'' ''NaN'';
          day = padStart 2 CHR ''0'' ''NaN'';
          year = ''NaN'' in
      Inr (month @ ''-'' @ day @ ''-'' @ year))"

subsection \<open>parseResponse\<close>

text \<open>The function maps four nested arrow functions over the arrays of the response.
  They are named here after what they map, from the innermost: the food items of a
  line, the lines of a block, the blocks of a schedule, the schedules of the response.
  \<open>newDate\<close> is the runtime's \<^verbatim>\<open>new Date(string)\<close>, \<open>lowerOther\<close> its table of
  lowercase mappings. The object literal of a menu
  item has no \<^verbatim>\<open>nutrition\<close> and no \<^verbatim>\<open>allergens\<close> key.\<close>

definition parseResponse_item :: "RawFoodItem \<Rightarrow> MenuItem" where
  "parseResponse_item item =
     \<lparr> MenuItem.name = item_Name item,
       altName = or_undefined (item_AltName item),
       MenuItem.description = or_undefined (RawFoodItem.description item),
       type = item_Type item,
       servingSize = serving_Size item,
       nutrition = None,
       allergens = None \<rparr>"

definition parseResponse_line :: "RawCafeteriaLine \<Rightarrow> CafeteriaLine" where
  "parseResponse_line line =
     \<lparr> CafeteriaLine.name = RawCafeteriaLine.name line,
       items = map parseResponse_item (data (foodItemList line)) \<rparr>"

definition parseResponse_block :: "other_lowering \<Rightarrow> RawMenuBlock \<Rightarrow> MenuBlock" where
  "parseResponse_block lowerOther block =
     (let blockName' = toLowerCase lowerOther (blockName block);
          mealPeriod' =
            (if js_includes blockName' ''breakfast'' then Breakfast
             else if js_includes blockName' ''lunch'' then Lunch
             else if js_includes blockName' ''dinner'' then Dinner
             else if js_includes blockName' ''snack'' then Snack
             else Lunch);
          cafeteriaLines' = map parseResponse_line (data (cafeteriaLineList block))
      in \<lparr> mealPeriod = mealPeriod', cafeteriaLines = cafeteriaLines' \<rparr>)"

definition parseResponse_schedule ::
  "other_lowering \<Rightarrow> (string \<Rightarrow> Date) \<Rightarrow> MealViewerSchool \<Rightarrow> RawMenuSchedule \<Rightarrow> DailyMenu" where
  "parseResponse_schedule lowerOther newDate school' schedule =
     (let date' = newDate (dateFull (dateInformation schedule));
          meals' = map (parseResponse_block lowerOther) (menuBlocks schedule)
      in \<lparr> date = date', DailyMenu.school = school', meals = meals' \<rparr>)"

definition parseResponse ::
  "other_lowering \<Rightarrow> (string \<Rightarrow> Date) \<Rightarrow> RawMealViewerResponse \<Rightarrow> GetMenuResponse" where
  "parseResponse lowerOther newDate rawData =
     (let school' =
            \<lparr> MealViewerSchool.name = PhysicalLocation.name (physicalLocation rawData),
              MealViewerSchool.address = PhysicalLocation.address (physicalLocation rawData),
              MealViewerSchool.city = PhysicalLocation.city (physicalLocation rawData),
              MealViewerSchool.state = PhysicalLocation.state (physicalLocation rawData),
              MealViewerSchool.latitude = PhysicalLocation.latitude (physicalLocation rawData),
              MealViewerSchool.longitude = PhysicalLocation.longitude (physicalLocation rawData) \<rparr>;
          menus' = map (parseResponse_schedule lowerOther newDate school') (menuSchedules rawData)
      in \<lparr> menus = menus', GetMenuResponse.school = school' \<rparr>)"

subsection \<open>handleError\<close>

text \<open>What a \<^verbatim>\<open>catch\<close> can receive, as far as \<^verbatim>\<open>handleError\<close> looks at it:
  \<^item> \<open>AxiosError status code message\<close>: a value for which \<^verbatim>\<open>axios.isAxiosError\<close> holds,
    with \<^verbatim>\<open>response?.status\<close>, \<^verbatim>\<open>code\<close> and \<^verbatim>\<open>message\<close>;
  \<^item> \<open>OtherError message\<close>: any other instance of \<^verbatim>\<open>Error\<close>;
  \<^item> \<open>NonError s\<close>: any other value, \<open>s\<close> being \<^verbatim>\<open>String(error)\<close>.
  The function's return type is \<^verbatim>\<open>never\<close>: the model returns what it throws.\<close>

datatype caught =
  AxiosError "int option" "string option" string
| OtherError string
| NonError string

fun isAxiosError :: "caught \<Rightarrow> bool" where
  "isAxiosError (AxiosError status errCode msg) = True"
| "isAxiosError (OtherError msg) = False"
| "isAxiosError (NonError s) = False"

text \<open>A template literal prints an \<^verbatim>\<open>undefined\<close> code as \<^verbatim>\<open>undefined\<close>; the code is
  never \<^verbatim>\<open>undefined\<close> where the literal below is evaluated.\<close>

fun handleError :: "caught \<Rightarrow> MealViewerError" where
  "handleError (AxiosError status errCode msg) =
     (if status = Some 404 then
        \<lparr> message = ''School not found. Please check the school name and try again.'',
          code = SCHOOL_NOT_FOUND \<rparr>
      else if errCode = Some ''ECONNREFUSED'' \<or> errCode = Some ''ETIMEDOUT'' then
        \<lparr> message = ''Network error: ''
            @ (case errCode of None \<Rightarrow> ''undefined'' | Some c \<Rightarrow> c)
            @ ''. Please check your internet connection.'',
          code = NETWORK_ERROR \<rparr>
      else
        \<lparr> message = ''API request failed: '' @ msg, code = API_ERROR \<rparr>)"
| "handleError (OtherError msg) =
     \<lparr> message = ''Unexpected error: '' @ msg, code = API_ERROR \<rparr>"
| "handleError (NonError s) =
     \<lparr> message = ''Unexpected error: '' @ s, code = API_ERROR \<rparr>"

subsection \<open>getMenu\<close>

text \<open>The test \<^verbatim>\<open>request.endDate ? ... : ...\<close>: an object is truthy, a string is truthy
  unless empty, \<^verbatim>\<open>undefined\<close> is falsy.\<close>

fun truthy :: "date_arg option \<Rightarrow> bool" where
  "truthy None = False"
| "truthy (Some (DateObject d)) = True"
| "truthy (Some (DateString s)) = (s \<noteq> [])"

text \<open>The first statements of \<^verbatim>\<open>getMenu\<close>, up to the URL. They are outside the
  \<^verbatim>\<open>try\<close> block: what \<^verbatim>\<open>formatDate\<close> throws leaves \<^verbatim>\<open>getMenu\<close> as it is.\<close>

definition getMenu_url :: "GetMenuRequest \<Rightarrow> MealViewerError + string" where
  "getMenu_url request =
     (case formatDate (startDate request) of
        Inl e \<Rightarrow> Inl e
      | Inr startDate' \<Rightarrow>
          (case (if truthy (endDate request) then formatDate (the (endDate request))
                 else Inr startDate') of
             Inl e \<Rightarrow> Inl e
           | Inr endDate' \<Rightarrow>
               Inr (''/school/'' @ schoolName request @ ''/'' @ startDate' @ ''/'' @ endDate' @ ''/'')))"

text \<open>\<open>get\<close> is \<^verbatim>\<open>this.axios.get\<close>: the response data, or what the promise is rejected
  with. The result of \<^verbatim>\<open>getMenu\<close> comes with the list of the URLs that were requested.
  On a response of the declared type \<^verbatim>\<open>parseResponse\<close> throws nothing, so the
  \<^verbatim>\<open>catch\<close> receives only what the request is rejected with. Logging
  (\<^verbatim>\<open>this.log\<close>) writes to the console when \<^verbatim>\<open>debug\<close> is set and is not modelled.\<close>

definition getMenu ::
  "other_lowering \<Rightarrow> (string \<Rightarrow> Date) \<Rightarrow> (string \<Rightarrow> caught + RawMealViewerResponse) \<Rightarrow> GetMenuRequest
     \<Rightarrow> (MealViewerError + GetMenuResponse) \<times> string list" where
  "getMenu lowerOther newDate get request =
     (case getMenu_url request of
        Inl e \<Rightarrow> (Inl e, [])
      | Inr url \<Rightarrow>
          (case get url of
             Inr response_data \<Rightarrow> (Inr (parseResponse lowerOther newDate response_data), [url])
           | Inl error \<Rightarrow> (Inl (handleError error), [url])))"


section \<open>Notions of the specification\<close>

text \<open>\<^verbatim>\<open>parts.join(sep)\<close>, the inverse of \<^verbatim>\<open>split\<close>; the client does not call it,
  it states what the pieces of a split are.\<close>

fun js_join :: "char \<Rightarrow> string list \<Rightarrow> string" where
  "js_join sep [] = []"
| "js_join sep [p] = p"
| "js_join sep (p # q # ps) = p @ sep # js_join sep (q # ps)"

text \<open>The two date formats, as shapes: decimal digits and dashes at fixed places.\<close>

definition is_digit :: "char \<Rightarrow> bool" where
  "is_digit c = (c \<in> set ''0123456789'')"

definition is_YYYY_MM_DD :: "string \<Rightarrow> bool" where
  "is_YYYY_MM_DD s =
     (length s = 10 \<and> list_all is_digit (take 4 s) \<and> s ! 4 = CHR ''-''
      \<and> list_all is_digit (take 2 (drop 5 s)) \<and> s ! 7 = CHR ''-''
      \<and> list_all is_digit (drop 8 s))"

definition is_MM_DD_YYYY :: "string \<Rightarrow> bool" where
  "is_MM_DD_YYYY s =
     (length s = 10 \<and> list_all is_digit (take 2 s) \<and> s ! 2 = CHR ''-''
      \<and> list_all is_digit (take 2 (drop 3 s)) \<and> s ! 5 = CHR ''-''
      \<and> list_all is_digit (drop 6 s))"



text \<open>Case-insensitive substring match. A code point is a keyword's letter up to case
  when it is that small letter or a code point whose lowercase form is that letter: its
  capital (32 below) and, for \<open>k\<close>, the Kelvin sign U+212A. A name matches a keyword
  when a run of consecutive code points of the name spells the keyword up to case.\<close>

definition letter :: "char \<Rightarrow> bool" where
  "letter k = (97 \<le> (of_char k :: nat) \<and> (of_char k :: nat) \<le> 122)"

definition capital :: "char \<Rightarrow> char" where
  "capital k = (if letter k then char_of (of_char k - 32 :: nat) else k)"

definition same_letter :: "string \<Rightarrow> char \<Rightarrow> bool" where
  "same_letter cp k = (cp = [k] \<or> cp = [capital k] \<or> (k = CHR ''k'' \<and> cp = kelvin_sign))"

definition matches_keyword :: "string \<Rightarrow> string \<Rightarrow> bool" where
  "matches_keyword nm keyword =
     (\<exists>preceding part following.
        code_points nm = preceding @ part @ following \<and> list_all2 same_letter part keyword)"


text \<open>The meal period of a block name as the specification words it: the four keywords
  in their priority order, Lunch when none matches.\<close>

definition spec_mealPeriod :: "string \<Rightarrow> meal_period" where
  "spec_mealPeriod nm =
     (if matches_keyword nm ''breakfast'' then Breakfast
      else if matches_keyword nm ''lunch'' then Lunch
      else if matches_keyword nm ''dinner'' then Dinner
      else if matches_keyword nm ''snack'' then Snack
      else Lunch)"

text \<open>What is assumed of the runtime's table: a code point beyond ASCII is lowered to
  at least one byte and to no ASCII byte. In Unicode the two code points whose mapping
  has an ASCII letter are the ones \<open>lower_point\<close> treats itself.\<close>

definition unicode_lowering :: "other_lowering \<Rightarrow> bool" where
  "unicode_lowering lowerOther =
     (\<forall>preceding cp following. cp \<noteq> [] \<and> (\<forall>b\<in>set cp. \<not> ascii b) \<longrightarrow>
        lowerOther preceding cp following \<noteq> []
        \<and> (\<forall>b\<in>set (lowerOther preceding cp following). \<not> ascii b))"


text \<open>Auxiliary notions of the proofs: the two shapes of a code point; a keyword spelt
  up to case from the first code point of a list on; a keyword of small letters that
  does not end in \<open>i\<close>.\<close>

definition token :: "string \<Rightarrow> bool" where
  "token cp = ((\<exists>c. cp = [c] \<and> ascii c) \<or> (cp \<noteq> [] \<and> (\<forall>b\<in>set cp. \<not> ascii b)))"


fun tokens_start :: "string list \<Rightarrow> string \<Rightarrow> bool" where
  "tokens_start cps [] = True"
| "tokens_start [] (k # ks) = False"
| "tokens_start (cp # cps) (k # ks) = (same_letter cp k \<and> tokens_start cps ks)"

definition word :: "string \<Rightarrow> bool" where
  "word kw = ((\<forall>k\<in>set kw. letter k) \<and> (kw \<noteq> [] \<longrightarrow> last kw \<noteq> CHR ''i''))"


text \<open>Positions in a raw response and in its mapped result: block \<open>j\<close> of schedule
  \<open>i\<close>, line \<open>k\<close> of that block, item \<open>l\<close> of that line.\<close>

definition raw_block :: "RawMealViewerResponse \<Rightarrow> nat \<Rightarrow> nat \<Rightarrow> RawMenuBlock" where
  "raw_block r i j = menuBlocks (menuSchedules r ! i) ! j"

definition raw_line :: "RawMealViewerResponse \<Rightarrow> nat \<Rightarrow> nat \<Rightarrow> nat \<Rightarrow> RawCafeteriaLine" where
  "raw_line r i j k = data (cafeteriaLineList (raw_block r i j)) ! k"

definition raw_item :: "RawMealViewerResponse \<Rightarrow> nat \<Rightarrow> nat \<Rightarrow> nat \<Rightarrow> nat \<Rightarrow> RawFoodItem" where
  "raw_item r i j k l = data (foodItemList (raw_line r i j k)) ! l"

definition is_block :: "RawMealViewerResponse \<Rightarrow> nat \<Rightarrow> nat \<Rightarrow> bool" where
  "is_block r i j = (i < length (menuSchedules r) \<and> j < length (menuBlocks (menuSchedules r ! i)))"

definition is_line :: "RawMealViewerResponse \<Rightarrow> nat \<Rightarrow> nat \<Rightarrow> nat \<Rightarrow> bool" where
  "is_line r i j k = (is_block r i j \<and> k < length (data (cafeteriaLineList (raw_block r i j))))"

definition is_item :: "RawMealViewerResponse \<Rightarrow> nat \<Rightarrow> nat \<Rightarrow> nat \<Rightarrow> nat \<Rightarrow> bool" where
  "is_item r i j k l = (is_line r i j k \<and> l < length (data (foodItemList (raw_line r i j k))))"

definition menu_block :: "GetMenuResponse \<Rightarrow> nat \<Rightarrow> nat \<Rightarrow> MenuBlock" where
  "menu_block res i j = meals (menus res ! i) ! j"

definition menu_line :: "GetMenuResponse \<Rightarrow> nat \<Rightarrow> nat \<Rightarrow> nat \<Rightarrow> CafeteriaLine" where
  "menu_line res i j k = cafeteriaLines (menu_block res i j) ! k"

definition menu_item :: "GetMenuResponse \<Rightarrow> nat \<Rightarrow> nat \<Rightarrow> nat \<Rightarrow> nat \<Rightarrow> MenuItem" where
  "menu_item res i j k l = items (menu_line res i j k) ! l"


section \<open>Sample data\<close>

text \<open>The response, the request and the stubs of the test suite, for the concrete
  instances below. The first food item has an empty \<^verbatim>\<open>item_AltName\<close>.\<close>

definition sample_response :: RawMealViewerResponse where
  "sample_response =
     \<lparr> physicalLocation =
         \<lparr> PhysicalLocation.name = ''Elmwood Elementary'',
           PhysicalLocation.address = ''123 Main St'',
           PhysicalLocation.city = ''Springfield'',
           PhysicalLocation.state = Some ''IL'',
           PhysicalLocation.latitude = Some 39.7817,
           PhysicalLocation.longitude = Some (- 89.6501) \<rparr>,
       menuSchedules =
         [\<lparr> dateInformation = \<lparr> dateFull = ''2025-01-15T00:00:00'' \<rparr>,
            menuBlocks =
              [\<lparr> blockName = ''Lunch'',
                 cafeteriaLineList = \<lparr> data =
                   [\<lparr> RawCafeteriaLine.name = ''Main Line'',
                      foodItemList = \<lparr> data =
                        [\<lparr> item_Name = ''Pizza'', item_AltName = Some [],
                           RawFoodItem.description = Some ''Cheese pizza'',
                           item_Type = ''Entree'', serving_Size = ''2 slices'' \<rparr>,
                         \<lparr> item_Name = ''Apple'', item_AltName = None,
                           RawFoodItem.description = None,
                           item_Type = ''Fruit'', serving_Size = ''1 each'' \<rparr>] \<rparr> \<rparr>] \<rparr> \<rparr>] \<rparr>] \<rparr>"

text \<open>The same response with one schedule whose blocks have the given names and no
  lines.\<close>

definition sample_blocks :: "string list \<Rightarrow> RawMealViewerResponse" where
  "sample_blocks names =
     sample_response \<lparr> menuSchedules :=
       [\<lparr> dateInformation = \<lparr> dateFull = ''2025-01-15T00:00:00'' \<rparr>,
          menuBlocks = map (\<lambda>n. \<lparr> blockName = n, cafeteriaLineList = \<lparr> data = [] \<rparr> \<rparr>) names \<rparr>] \<rparr>"

definition sample_request :: GetMenuRequest where
  "sample_request =
     \<lparr> schoolName = ''ElmwoodElementary'', startDate = DateString ''2025-01-15'', endDate = None \<rparr>"

text \<open>A stub of \<^verbatim>\<open>this.axios.get\<close> that resolves with the sample response, a
  table that lowers every other code point to itself, and a stub of \<^verbatim>\<open>new Date\<close>.\<close>

definition sample_get :: "string \<Rightarrow> caught + RawMealViewerResponse" where
  "sample_get url = Inr sample_response"

definition sample_lowering :: other_lowering where
  "sample_lowering preceding cp following = cp"

definition sample_newDate :: "string \<Rightarrow> Date" where
  "sample_newDate s = Date 2025 0 15"


section \<open>Properties of the string primitives\<close>

lemma js_split_not_Nil: "js_split sep s \<noteq> []"
  by (induction s) (auto split: list.splits)

lemma js_split_no_sep: "sep \<notin> set a \<Longrightarrow> js_split sep a = [a]"
  by (induction a) auto

lemma js_split_append_sep:
  "sep \<notin> set a \<Longrightarrow> js_split sep (a @ sep # r) = a # js_split sep r"
  by (induction a) (auto simp: js_split_not_Nil split: list.splits)

lemma js_split_pieces: "p \<in> set (js_split sep s) \<Longrightarrow> sep \<notin> set p"
  by (induction s arbitrary: p) (auto split: if_splits list.splits)

lemma js_join_split: "js_join sep (js_split sep s) = s"
proof (induction s)
  case Nil
  show ?case by simp
next
  case (Cons c cs)
  show ?case
  proof (cases "js_split sep cs")
    case Nil
    then show ?thesis using js_split_not_Nil by blast
  next
    case (Cons p ps)
    with Cons.IH show ?thesis by (cases ps) auto
  qed
qed

lemma js_split_three:
  assumes "js_split sep s = [y, m, d]"
  shows "s = y @ sep # m @ sep # d" and "sep \<notin> set y" and "sep \<notin> set m" and "sep \<notin> set d"
proof -
  show "s = y @ sep # m @ sep # d"
    using js_join_split [of sep s] assms by simp
  show "sep \<notin> set y" "sep \<notin> set m" "sep \<notin> set d"
    using js_split_pieces [of _ sep s] assms by simp_all
qed

lemma startsWith_iff: "startsWith s t \<longleftrightarrow> (\<exists>q. s = t @ q)"
  by (induction s t rule: startsWith.induct) auto

lemma js_includes_iff: "js_includes s t \<longleftrightarrow> (\<exists>p q. s = p @ t @ q)"
proof (induction s)
  case Nil
  show ?case by auto
next
  case (Cons c cs)
  show ?case
  proof
    assume "js_includes (c # cs) t"
    then consider "startsWith (c # cs) t" | "js_includes cs t" by auto
    then show "\<exists>p q. c # cs = p @ t @ q"
    proof cases
      case 1
      then obtain q where "c # cs = t @ q" by (auto simp: startsWith_iff)
      then have "c # cs = [] @ t @ q" by simp
      then show ?thesis by blast
    next
      case 2
      then obtain p q where "cs = p @ t @ q" using Cons.IH by blast
      then have "c # cs = (c # p) @ t @ q" by simp
      then show ?thesis by blast
    qed
  next
    assume "\<exists>p q. c # cs = p @ t @ q"
    then obtain p q where pq: "c # cs = p @ t @ q" by blast
    show "js_includes (c # cs) t"
    proof (cases p)
      case Nil
      with pq have "startsWith (c # cs) t" by (auto simp: startsWith_iff)
      then show ?thesis by simp
    next
      case (Cons a p')
      with pq have "cs = p' @ t @ q" by simp
      then have "js_includes cs t" using Cons.IH by blast
      then show ?thesis by simp
    qed
  qed
qed

lemma js_includes_middle: "js_includes (p @ t @ q) t"
  unfolding js_includes_iff by blast


section \<open>The request builder\<close>

subsection \<open>Digits and padding\<close>

lemma dash_not_digit: "\<not> is_digit CHR ''-''"
  by (simp add: is_digit_def)

lemma digits_no_dash: "list_all is_digit s \<Longrightarrow> CHR ''-'' \<notin> set s"
  using dash_not_digit by (auto simp: list_all_iff)











subsection \<open>formatDate\<close>

lemma formatDate_three:
  assumes "CHR ''-'' \<notin> set y" and "CHR ''-'' \<notin> set m" and "CHR ''-'' \<notin> set d"
  shows "formatDate (DateString (y @ ''-'' @ m @ ''-'' @ d)) = Inr (m @ ''-'' @ d @ ''-'' @ y)"
proof -
  have "js_split CHR ''-'' (y @ CHR ''-'' # m @ CHR ''-'' # d) = [y, m, d]"
    using assms by (simp add: js_split_append_sep js_split_no_sep)
  then show ?thesis by simp
qed

lemma YYYY_MM_DD_decompose:
  assumes "is_YYYY_MM_DD s"
  shows "s = take 4 s @ ''-'' @ take 2 (drop 5 s) @ ''-'' @ drop 8 s"
proof -
  from assms have len: "length s = 10" and d4: "s ! 4 = CHR ''-''" and d7: "s ! 7 = CHR ''-''"
    by (simp_all add: is_YYYY_MM_DD_def)
  have "s ! 7 # drop (Suc 7) s = drop 7 s"
    using len by (intro Cons_nth_drop_Suc) simp
  then have a: "CHR ''-'' # drop 8 s = drop 7 s" using d7 by simp
  have "take 2 (drop 5 s) @ drop 2 (drop 5 s) = drop 5 s" by (rule append_take_drop_id)
  then have b: "take 2 (drop 5 s) @ drop 7 s = drop 5 s" by simp
  have "s ! 4 # drop (Suc 4) s = drop 4 s"
    using len by (intro Cons_nth_drop_Suc) simp
  then have c: "CHR ''-'' # drop 5 s = drop 4 s" using d4 by simp
  have "take 4 s @ ''-'' @ take 2 (drop 5 s) @ ''-'' @ drop 8 s
      = take 4 s @ CHR ''-'' # take 2 (drop 5 s) @ drop 7 s"
    by (simp add: a)
  also have "\<dots> = take 4 s @ CHR ''-'' # drop 5 s" by (simp only: b)
  also have "\<dots> = take 4 s @ drop 4 s" by (simp only: c)
  also have "\<dots> = s" by (rule append_take_drop_id)
  finally show ?thesis by (rule sym)
qed

text \<open>
  Claim C1, as the code has it. A date string that splits at its dashes into exactly three
  pieces \<open>y\<close>, \<open>m\<close>, \<open>d\<close> gives the URL segment \<open>m-d-y\<close>: the pieces are copied as
  they are, nothing is padded on this path. For a string of the shape \<^verbatim>\<open>YYYY-MM-DD\<close>
  (four, two and two digits) the segment is the rearrangement \<^verbatim>\<open>MM-DD-YYYY\<close>, with month
  and day on two digits.
\<close>

theorem formatDate_string:
  "(length (js_split CHR ''-'' s) = 3 \<longrightarrow>
      (\<exists>y m d. s = y @ ''-'' @ m @ ''-'' @ d
         \<and> CHR ''-'' \<notin> set y \<and> CHR ''-'' \<notin> set m \<and> CHR ''-'' \<notin> set d
         \<and> formatDate (DateString s) = Inr (m @ ''-'' @ d @ ''-'' @ y)))
   \<and> (is_YYYY_MM_DD s \<longrightarrow>
        formatDate (DateString s) = Inr (take 2 (drop 5 s) @ ''-'' @ drop 8 s @ ''-'' @ take 4 s)
        \<and> is_MM_DD_YYYY (take 2 (drop 5 s) @ ''-'' @ drop 8 s @ ''-'' @ take 4 s))"
proof (intro conjI impI)
  assume "length (js_split CHR ''-'' s) = 3"
  then obtain y m d where parts: "js_split CHR ''-'' s = [y, m, d]"
    by (auto simp: length_Suc_conv numeral_3_eq_3)
  have "s = y @ ''-'' @ m @ ''-'' @ d"
    using js_split_three(1) [OF parts] by simp
  moreover have "CHR ''-'' \<notin> set y" "CHR ''-'' \<notin> set m" "CHR ''-'' \<notin> set d"
    using js_split_three(2-4) [OF parts] by simp_all
  moreover have "formatDate (DateString s) = Inr (m @ ''-'' @ d @ ''-'' @ y)"
    using parts by simp
  ultimately show "\<exists>y m d. s = y @ ''-'' @ m @ ''-'' @ d
         \<and> CHR ''-'' \<notin> set y \<and> CHR ''-'' \<notin> set m \<and> CHR ''-'' \<notin> set d
         \<and> formatDate (DateString s) = Inr (m @ ''-'' @ d @ ''-'' @ y)"
    by blast
next
  assume iso: "is_YYYY_MM_DD s"
  have "formatDate (DateString (take 4 s @ ''-'' @ take 2 (drop 5 s) @ ''-'' @ drop 8 s))
      = Inr (take 2 (drop 5 s) @ ''-'' @ drop 8 s @ ''-'' @ take 4 s)"
    using iso by (intro formatDate_three digits_no_dash) (simp_all add: is_YYYY_MM_DD_def)
  moreover have "formatDate (DateString s)
      = formatDate (DateString (take 4 s @ ''-'' @ take 2 (drop 5 s) @ ''-'' @ drop 8 s))"
    by (rule arg_cong [OF YYYY_MM_DD_decompose [OF iso]])
  ultimately show "formatDate (DateString s)
      = Inr (take 2 (drop 5 s) @ ''-'' @ drop 8 s @ ''-'' @ take 4 s)"
    by (rule back_subst [where P = "\<lambda>x. formatDate (DateString s) = x", rotated])
next
  assume iso: "is_YYYY_MM_DD s"
  then show "is_MM_DD_YYYY (take 2 (drop 5 s) @ ''-'' @ drop 8 s @ ''-'' @ take 4 s)"
    by (simp add: is_YYYY_MM_DD_def is_MM_DD_YYYY_def nth_append)
qed

theorem formatDate_string_witness:
  "is_YYYY_MM_DD ''2025-01-15'' \<and> length (js_split CHR ''-'' ''2025-01-15'') = 3
   \<and> formatDate (DateString ''2025-01-15'') = Inr ''01-15-2025''
   \<and> is_MM_DD_YYYY ''01-15-2025''"
proof -
  have iso: "is_YYYY_MM_DD ''2025-01-15''"
    by (simp add: is_YYYY_MM_DD_def is_digit_def)
  have len: "length (js_split CHR ''-'' ''2025-01-15'') = 3"
    by simp
  have "formatDate (DateString ''2025-01-15'')
          = Inr (take 2 (drop 5 ''2025-01-15'') @ ''-'' @ drop 8 ''2025-01-15'' @ ''-''
                 @ take 4 ''2025-01-15'')
        \<and> is_MM_DD_YYYY (take 2 (drop 5 ''2025-01-15'') @ ''-'' @ drop 8 ''2025-01-15'' @ ''-''
                 @ take 4 ''2025-01-15'')"
    using formatDate_string [of "''2025-01-15''", THEN conjunct2] iso by (rule mp)
  then show ?thesis using iso len by simp
qed

text \<open>The claim C1 as it is written fails on a string whose month and day have one
  digit: the segment is not padded.\<close>

theorem unpadded_string_date:
  "formatDate (DateString ''2025-1-5'') = Inr ''1-5-2025'' \<and> \<not> is_MM_DD_YYYY ''1-5-2025''"
  by (simp add: is_MM_DD_YYYY_def)








subsection \<open>getMenu\<close>

lemma formatDate_invalid:
  "length (js_split CHR ''-'' s) \<noteq> 3 \<Longrightarrow>
   formatDate (DateString s)
     = Inl \<lparr> message = ''Invalid date format: '' @ s @ ''. Expected YYYY-MM-DD'', code = INVALID_DATE \<rparr>"
  by simp

lemma getMenu_url_start_fails:
  "formatDate (startDate request) = Inl e \<Longrightarrow> getMenu_url request = Inl e"
  by (simp add: getMenu_url_def)

lemma getMenu_url_end_fails:
  "formatDate (startDate request) = Inr seg \<Longrightarrow> truthy (endDate request) \<Longrightarrow>
   formatDate (the (endDate request)) = Inl e \<Longrightarrow> getMenu_url request = Inl e"
  by (simp add: getMenu_url_def)

lemma getMenu_url_falsy_end:
  "formatDate (startDate request) = Inr seg \<Longrightarrow> \<not> truthy (endDate request) \<Longrightarrow>
   getMenu_url request = Inr (''/school/'' @ schoolName request @ ''/'' @ seg @ ''/'' @ seg @ ''/'')"
  by (simp add: getMenu_url_def)

lemma getMenu_no_url:
  "getMenu_url request = Inl e \<Longrightarrow> getMenu lowerOther newDate get request = (Inl e, [])"
  by (simp add: getMenu_def)

lemma getMenu_requests:
  "getMenu_url request = Inr url \<Longrightarrow> snd (getMenu lowerOther newDate get request) = [url]"
  by (simp add: getMenu_def split: sum.splits)

lemma handleError_not_INVALID_DATE: "code (handleError f) \<noteq> INVALID_DATE"
  by (cases f) simp_all

text \<open>
  Claim C4, as the code has it. When the start date is a string that does not split
  into exactly three pieces, \<^verbatim>\<open>getMenu\<close> fails with INVALID_DATE, the message holds
  the string, and no URL is requested, whatever the transport would answer. The same
  holds for a nonempty end date string when the start date formats. The error does not
  come from \<^verbatim>\<open>handleError\<close>, which never gives INVALID_DATE.
\<close>

theorem getMenu_invalid_date:
  "length (js_split CHR ''-'' s) \<noteq> 3 \<longrightarrow>
     getMenu lowerOther newDate get (request \<lparr> startDate := DateString s \<rparr>)
       = (Inl \<lparr> message = ''Invalid date format: '' @ s @ ''. Expected YYYY-MM-DD'',
                code = INVALID_DATE \<rparr>, [])
     \<and> (s \<noteq> [] \<and> formatDate (startDate request) = Inr seg \<longrightarrow>
          getMenu lowerOther newDate get (request \<lparr> endDate := Some (DateString s) \<rparr>)
            = (Inl \<lparr> message = ''Invalid date format: '' @ s @ ''. Expected YYYY-MM-DD'',
                     code = INVALID_DATE \<rparr>, []))
     \<and> js_includes (''Invalid date format: '' @ s @ ''. Expected YYYY-MM-DD'') s
     \<and> code (handleError f) \<noteq> INVALID_DATE"
proof (intro conjI impI)
  assume bad: "length (js_split CHR ''-'' s) \<noteq> 3"
  let ?e = "\<lparr> message = ''Invalid date format: '' @ s @ ''. Expected YYYY-MM-DD'',
              code = INVALID_DATE \<rparr>"
  have fd: "formatDate (DateString s) = Inl ?e"
    using bad by (rule formatDate_invalid)
  have "getMenu_url (request \<lparr> startDate := DateString s \<rparr>) = Inl ?e"
    by (rule getMenu_url_start_fails) (simp add: fd del: formatDate.simps)
  then show "getMenu lowerOther newDate get (request \<lparr> startDate := DateString s \<rparr>) = (Inl ?e, [])"
    by (rule getMenu_no_url)
  show "js_includes (''Invalid date format: '' @ s @ ''. Expected YYYY-MM-DD'') s"
    by (rule js_includes_middle)
  show "code (handleError f) \<noteq> INVALID_DATE"
    by (rule handleError_not_INVALID_DATE)
  assume ok: "s \<noteq> [] \<and> formatDate (startDate request) = Inr seg"
  have "getMenu_url (request \<lparr> endDate := Some (DateString s) \<rparr>) = Inl ?e"
    by (rule getMenu_url_end_fails [where seg = seg]) (simp_all add: fd ok del: formatDate.simps)
  then show "getMenu lowerOther newDate get (request \<lparr> endDate := Some (DateString s) \<rparr>) = (Inl ?e, [])"
    by (rule getMenu_no_url)
qed

theorem getMenu_invalid_date_witness:
  "length (js_split CHR ''-'' ''invalid-date'') \<noteq> 3
   \<and> formatDate (startDate sample_request) = Inr ''01-15-2025''
   \<and> getMenu sample_lowering sample_newDate sample_get (sample_request \<lparr> startDate := DateString ''invalid-date'' \<rparr>)
       = (Inl \<lparr> message = ''Invalid date format: invalid-date. Expected YYYY-MM-DD'',
                code = INVALID_DATE \<rparr>, [])
   \<and> getMenu sample_lowering sample_newDate sample_get (sample_request \<lparr> endDate := Some (DateString ''invalid-date'') \<rparr>)
       = (Inl \<lparr> message = ''Invalid date format: invalid-date. Expected YYYY-MM-DD'',
                code = INVALID_DATE \<rparr>, [])"
proof -
  have bad: "length (js_split CHR ''-'' ''invalid-date'') \<noteq> 3"
    by simp
  have ok: "formatDate (startDate sample_request) = Inr ''01-15-2025''"
    by (simp add: sample_request_def)
  note c = getMenu_invalid_date [of "''invalid-date''" sample_lowering sample_newDate sample_get sample_request
      "''01-15-2025''", THEN mp, OF bad]
  show ?thesis using c bad ok by simp
qed

text \<open>The claim C4 as it is written fails on an empty \<^verbatim>\<open>endDate\<close>: the empty string
  does not split into three pieces, and \<^verbatim>\<open>getMenu\<close> requests the URL and succeeds.\<close>

theorem empty_endDate_not_rejected:
  "length (js_split CHR ''-'' []) \<noteq> 3
   \<and> getMenu sample_lowering sample_newDate sample_get (sample_request \<lparr> endDate := Some (DateString []) \<rparr>)
      = (Inr (parseResponse sample_lowering sample_newDate sample_response),
         [''/school/ElmwoodElementary/01-15-2025/01-15-2025/''])"
  by (simp add: getMenu_def getMenu_url_def sample_request_def sample_get_def)

text \<open>
  Claim C7. When \<^verbatim>\<open>endDate\<close> is omitted, the end segment of the URL is the start
  segment, and that URL is the one requested; when the start date does not format,
  nothing is requested.
\<close>

theorem getMenu_endDate_omitted:
  "endDate request = None \<longrightarrow>
     (formatDate (startDate request) = Inr seg \<longrightarrow>
        getMenu_url request
          = Inr (''/school/'' @ schoolName request @ ''/'' @ seg @ ''/'' @ seg @ ''/'')
        \<and> snd (getMenu lowerOther newDate get request)
          = [''/school/'' @ schoolName request @ ''/'' @ seg @ ''/'' @ seg @ ''/''])
     \<and> (formatDate (startDate request) = Inl e \<longrightarrow> getMenu lowerOther newDate get request = (Inl e, []))"
proof (intro conjI impI)
  assume none: "endDate request = None"
  {
    assume fd: "formatDate (startDate request) = Inr seg"
    show url: "getMenu_url request
          = Inr (''/school/'' @ schoolName request @ ''/'' @ seg @ ''/'' @ seg @ ''/'')"
      using fd by (rule getMenu_url_falsy_end) (simp add: none)
    show "snd (getMenu lowerOther newDate get request)
          = [''/school/'' @ schoolName request @ ''/'' @ seg @ ''/'' @ seg @ ''/'']"
      using url by (rule getMenu_requests)
  }
  assume "formatDate (startDate request) = Inl e"
  then have "getMenu_url request = Inl e" by (rule getMenu_url_start_fails)
  then show "getMenu lowerOther newDate get request = (Inl e, [])" by (rule getMenu_no_url)
qed

theorem getMenu_endDate_omitted_witness:
  "endDate sample_request = None
   \<and> formatDate (startDate sample_request) = Inr ''01-15-2025''
   \<and> getMenu_url sample_request = Inr ''/school/ElmwoodElementary/01-15-2025/01-15-2025/''
   \<and> snd (getMenu sample_lowering sample_newDate sample_get sample_request)
       = [''/school/ElmwoodElementary/01-15-2025/01-15-2025/'']"
proof -
  have none: "endDate sample_request = None"
    and ok: "formatDate (startDate sample_request) = Inr ''01-15-2025''"
    and nm: "schoolName sample_request = ''ElmwoodElementary''"
    by (simp_all add: sample_request_def)
  note c = getMenu_endDate_omitted [of sample_request "''01-15-2025''" sample_lowering sample_newDate sample_get,
      THEN mp, OF none, THEN conjunct1, THEN mp, OF ok]
  show ?thesis using c none ok by (simp add: nm)
qed

text \<open>
  Claim C9. An empty string as \<^verbatim>\<open>endDate\<close> is treated as an omitted one: the call
  behaves as without it, and the end segment is the start segment. \<^verbatim>\<open>formatDate\<close>
  would have rejected the empty string.
\<close>

theorem getMenu_empty_endDate:
  "getMenu lowerOther newDate get (request \<lparr> endDate := Some (DateString []) \<rparr>)
     = getMenu lowerOther newDate get (request \<lparr> endDate := None \<rparr>)
   \<and> (formatDate (startDate request) = Inr seg \<longrightarrow>
        getMenu_url (request \<lparr> endDate := Some (DateString []) \<rparr>)
          = Inr (''/school/'' @ schoolName request @ ''/'' @ seg @ ''/'' @ seg @ ''/''))
   \<and> formatDate (DateString [])
       = Inl \<lparr> message = ''Invalid date format: . Expected YYYY-MM-DD'', code = INVALID_DATE \<rparr>"
proof (intro conjI impI)
  have "getMenu_url (request \<lparr> endDate := Some (DateString []) \<rparr>)
      = getMenu_url (request \<lparr> endDate := None \<rparr>)"
    by (simp add: getMenu_url_def split: sum.splits)
  then show "getMenu lowerOther newDate get (request \<lparr> endDate := Some (DateString []) \<rparr>)
     = getMenu lowerOther newDate get (request \<lparr> endDate := None \<rparr>)"
    by (simp add: getMenu_def)
  show "formatDate (DateString [])
       = Inl \<lparr> message = ''Invalid date format: . Expected YYYY-MM-DD'', code = INVALID_DATE \<rparr>"
    by simp
next
  assume "formatDate (startDate request) = Inr seg"
  then show "getMenu_url (request \<lparr> endDate := Some (DateString []) \<rparr>)
          = Inr (''/school/'' @ schoolName request @ ''/'' @ seg @ ''/'' @ seg @ ''/'')"
    by (simp add: getMenu_url_def)
qed

theorem getMenu_empty_endDate_witness:
  "formatDate (startDate sample_request) = Inr ''01-15-2025''
   \<and> getMenu_url (sample_request \<lparr> endDate := Some (DateString []) \<rparr>)
       = Inr ''/school/ElmwoodElementary/01-15-2025/01-15-2025/''"
proof -
  have ok: "formatDate (startDate sample_request) = Inr ''01-15-2025''"
    and nm: "schoolName sample_request = ''ElmwoodElementary''"
    by (simp_all add: sample_request_def)
  note c = getMenu_empty_endDate [of sample_lowering sample_newDate sample_get sample_request "''01-15-2025''",
      THEN conjunct2, THEN conjunct1, THEN mp, OF ok]
  show ?thesis using c ok by (simp add: nm)
qed


section \<open>The response mapper\<close>

subsection \<open>Lowercase and case-insensitive match\<close>

lemma letter_ascii: "letter k \<Longrightarrow> ascii k"
  by (simp add: letter_def ascii_def)

lemma char_eq_char_of: "n < 256 \<Longrightarrow> c = char_of (n :: nat) \<longleftrightarrow> of_char c = n"
  using char_of_eq_iff [of n c] by (auto simp: take_bit_eq_mod)

lemma capital_ascii: "letter k \<Longrightarrow> ascii (capital k)"
proof -
  assume "letter k"
  then have "(of_char k :: nat) - 32 < 128" unfolding letter_def by arith
  then have "(of_char (char_of (of_char k - 32 :: nat)) :: nat) < 128" by simp
  then show ?thesis using \<open>letter k\<close> by (simp only: capital_def ascii_def if_True)
qed

lemma lower_char_eq_letter:
  assumes "letter k"
  shows "lower_char c = k \<longleftrightarrow> c = k \<or> c = capital k"
proof -
  have k: "97 \<le> (of_char k :: nat)" "(of_char k :: nat) \<le> 122"
    using assms by (simp_all add: letter_def)
  have ck: "capital k = char_of (of_char k - 32 :: nat)"
    using assms by (simp add: capital_def)
  have "(of_char k :: nat) - 32 < 256" using k by arith
  then have "c = char_of (of_char k - 32 :: nat) \<longleftrightarrow> (of_char c :: nat) = of_char k - 32"
    by (rule char_eq_char_of)
  then have cap: "c = capital k \<longleftrightarrow> (of_char c :: nat) = of_char k - 32"
    by (simp only: ck)
  show ?thesis
  proof (cases "65 \<le> (of_char c :: nat) \<and> (of_char c :: nat) \<le> 90")
    case True
    then have lc: "lower_char c = char_of (of_char c + 32 :: nat)"
      by (simp add: lower_char_def)
    have "(of_char c :: nat) + 32 < 256" using True by simp
    then have "k = char_of (of_char c + 32 :: nat) \<longleftrightarrow> (of_char k :: nat) = of_char c + 32"
      by (rule char_eq_char_of)
    then have "lower_char c = k \<longleftrightarrow> (of_char k :: nat) = of_char c + 32"
      unfolding lc by (simp only: eq_commute [of "char_of (of_char c + 32 :: nat)" k])
    moreover have "(of_char c :: nat) \<noteq> of_char k" using True k by arith
    then have "c \<noteq> k" by auto
    moreover have "(of_char c :: nat) = of_char k - 32 \<longleftrightarrow> (of_char k :: nat) = of_char c + 32"
      using True k by arith
    ultimately show ?thesis unfolding cap by blast
  next
    case False
    then have "lower_char c = c" unfolding lower_char_def by (rule if_not_P)
    moreover have "(of_char c :: nat) \<noteq> of_char k - 32" using False k by arith
    ultimately show ?thesis unfolding cap by simp
  qed
qed

lemma continuation_not_ascii: "continuation b \<Longrightarrow> \<not> ascii b"
  by (simp add: continuation_def ascii_def)

lemma code_points_tokens: "cp \<in> set (code_points s) \<Longrightarrow> token cp"
proof (induction s arbitrary: cp rule: code_points.induct)
  case 1
  then show ?case by simp
next
  case (2 c cs)
  show ?case
  proof (cases "ascii c")
    case True
    with "2.prems" "2.IH"(1) show ?thesis by (auto simp: token_def)
  next
    case False
    from False "2.prems" consider "cp = c # takeWhile continuation cs"
      | "cp \<in> set (code_points (dropWhile continuation cs))" by auto
    then show ?thesis
    proof cases
      case 1
      have "\<forall>b\<in>set (takeWhile continuation cs). \<not> ascii b"
        by (auto dest: set_takeWhileD continuation_not_ascii)
      with 1 False show ?thesis by (simp add: token_def)
    next
      case 2
      with False "2.IH"(2) show ?thesis by blast
    qed
  qed
qed

text \<open>The four shapes of what a code point is lowered to.\<close>

lemma kelvin_not_ascii: "\<forall>b\<in>set kelvin_sign. \<not> ascii b"
  by (simp add: kelvin_sign_def ascii_def)

lemma capital_I_dot_not_ascii: "\<forall>b\<in>set capital_I_dot. \<not> ascii b"
  by (simp add: capital_I_dot_def ascii_def)

lemma combining_dot_not_ascii: "\<forall>b\<in>set combining_dot. \<not> ascii b" "combining_dot \<noteq> []"
  by (simp_all add: combining_dot_def ascii_def)

lemma lower_point_cases:
  assumes "unicode_lowering lo" and "token cp"
  obtains
    (ascii) c where "cp = [c]" "ascii c" "lower_point lo pre cp post = [lower_char c]"
  | (kelvin) "cp = kelvin_sign" "lower_point lo pre cp post = ''k''"
  | (dotted) "cp = capital_I_dot" "lower_point lo pre cp post = CHR ''i'' # combining_dot"
  | (other) "\<forall>b\<in>set cp. \<not> ascii b" "cp \<noteq> kelvin_sign" "cp \<noteq> []"
      "lower_point lo pre cp post \<noteq> []" "\<forall>b\<in>set (lower_point lo pre cp post). \<not> ascii b"
proof (cases "\<exists>c. cp = [c] \<and> ascii c")
  case True
  then obtain c where "cp = [c]" "ascii c" by blast
  then show ?thesis by (intro ascii [of c]) (simp_all add: lower_point_def)
next
  case False
  with assms(2) have na: "cp \<noteq> []" "\<forall>b\<in>set cp. \<not> ascii b"
    by (auto simp: token_def)
  have not1: "\<not> (length cp = 1 \<and> ascii (hd cp))"
    using na by (cases cp) auto
  show ?thesis
  proof (cases "cp = kelvin_sign")
    case True
    then show ?thesis using not1 by (intro kelvin) (auto simp: lower_point_def)
  next
    case nk: False
    show ?thesis
    proof (cases "cp = capital_I_dot")
      case True
      then show ?thesis using not1 nk by (intro dotted) (auto simp: lower_point_def)
    next
      case nd: False
      have eq: "lower_point lo pre cp post = lo pre cp post"
        using not1 nk nd by (auto simp: lower_point_def)
      have "lo pre cp post \<noteq> [] \<and> (\<forall>b\<in>set (lo pre cp post). \<not> ascii b)"
        using assms(1) na unfolding unicode_lowering_def by blast
      then show ?thesis using na nk eq by (intro other) simp_all
    qed
  qed
qed

lemma word_tl: "word (k # ks) \<Longrightarrow> word ks"
  by (auto simp: word_def)

lemma word_hd: "word (k # ks) \<Longrightarrow> letter k"
  by (simp add: word_def)

lemma word_i: "word (CHR ''i'' # ks) \<Longrightarrow> \<exists>k2 ks2. ks = k2 # ks2 \<and> ascii k2"
  by (cases ks) (auto simp: word_def letter_ascii)

lemma tokens_start_iff:
  "tokens_start cps kw \<longleftrightarrow> (\<exists>part post. cps = part @ post \<and> list_all2 same_letter part kw)"
proof (induction cps kw rule: tokens_start.induct)
  case (1 cps)
  show ?case by simp
next
  case (2 k ks)
  show ?case by simp
next
  case (3 cp cps k ks)
  show ?case
  proof
    assume "tokens_start (cp # cps) (k # ks)"
    then have "same_letter cp k" and "tokens_start cps ks" by simp_all
    then obtain part post where "cps = part @ post" "list_all2 same_letter part ks"
      using "3.IH" by blast
    then have "cp # cps = (cp # part) @ post \<and> list_all2 same_letter (cp # part) (k # ks)"
      using \<open>same_letter cp k\<close> by simp
    then show "\<exists>part post. cp # cps = part @ post \<and> list_all2 same_letter part (k # ks)"
      by blast
  next
    assume "\<exists>part post. cp # cps = part @ post \<and> list_all2 same_letter part (k # ks)"
    then obtain part post where eq: "cp # cps = part @ post"
      and all: "list_all2 same_letter part (k # ks)" by blast
    from all obtain p ps where part: "part = p # ps" "same_letter p k" "list_all2 same_letter ps ks"
      by (auto simp: list_all2_Cons2)
    with eq have "cp = p" "cps = ps @ post" by simp_all
    then have "tokens_start cps ks" using "3.IH" part(3) by blast
    then show "tokens_start (cp # cps) (k # ks)" using part(2) \<open>cp = p\<close> by simp
  qed
qed

lemma same_letter_ascii:
  "letter k \<Longrightarrow> same_letter [c] k \<longleftrightarrow> lower_char c = k"
  by (simp add: same_letter_def kelvin_sign_def lower_char_eq_letter)

lemma same_letter_kelvin: "same_letter kelvin_sign k \<longleftrightarrow> k = CHR ''k''"
  by (auto simp: same_letter_def kelvin_sign_def)

lemma same_letter_dotted: "\<not> same_letter capital_I_dot k"
  by (simp add: same_letter_def kelvin_sign_def capital_I_dot_def)

lemma same_letter_other:
  assumes "letter k" and "\<forall>b\<in>set cp. \<not> ascii b" and "cp \<noteq> kelvin_sign"
  shows "\<not> same_letter cp k"
proof -
  have "cp \<noteq> [k]" using assms(1,2) letter_ascii by auto
  moreover have "cp \<noteq> [capital k]" using assms(1,2) capital_ascii by auto
  ultimately show ?thesis using assms(3) by (simp add: same_letter_def)
qed

lemma startsWith_non_ascii:
  "\<not> ascii b \<Longrightarrow> ascii k \<Longrightarrow> \<not> startsWith (b # xs) (k # ks)"
  by auto

lemma startsWith_lower_points:
  assumes "unicode_lowering lo" and "\<forall>cp\<in>set cps. token cp" and "word kw"
  shows "startsWith (lower_points lo pre cps) kw \<longleftrightarrow> tokens_start cps kw"
  using assms(2,3)
proof (induction cps arbitrary: pre kw)
  case Nil
  show ?case by (cases kw) simp_all
next
  case (Cons cp cps)
  show ?case
  proof (cases kw)
    case Nil
    then show ?thesis by simp
  next
    case kw: (Cons k ks)
    have k: "letter k" and ks: "word ks"
      using Cons.prems(2) kw by (auto dest: word_hd word_tl)
    have tok: "token cp" and toks: "\<forall>cp\<in>set cps. token cp"
      using Cons.prems(1) by simp_all
    let ?L = "lower_points lo (pre @ [cp]) cps"
    have IH: "startsWith ?L ks \<longleftrightarrow> tokens_start cps ks"
      using Cons.IH [OF toks ks] .
    from assms(1) tok show ?thesis
    proof (cases rule: lower_point_cases [where pre = pre and post = cps])
      case (ascii c)
      then show ?thesis using IH k by (simp add: kw same_letter_ascii)
    next
      case kelvin
      then show ?thesis using IH by (auto simp: kw same_letter_kelvin)
    next
      case dotted
      have "\<not> startsWith (CHR ''i'' # combining_dot @ ?L) (k # ks)"
      proof (cases "k = CHR ''i''")
        case True
        then obtain k2 ks2 where "ks = k2 # ks2" "ascii k2"
          using Cons.prems(2) kw word_i by blast
        then show ?thesis by (auto simp: combining_dot_def ascii_def)
      next
        case False
        then show ?thesis by simp
      qed
      then show ?thesis using dotted by (simp add: kw same_letter_dotted)
    next
      case other
      then obtain b bs where out: "lower_point lo pre cp cps = b # bs" "\<not> ascii b"
        by (cases "lower_point lo pre cp cps") auto
      then have "\<not> startsWith (lower_points lo pre (cp # cps)) (k # ks)"
        using k letter_ascii by auto
      moreover have "\<not> same_letter cp k"
        using k other(1,2) by (rule same_letter_other)
      ultimately show ?thesis by (simp add: kw)
    qed
  qed
qed

lemma js_includes_non_ascii:
  "\<forall>b\<in>set xs. \<not> ascii b \<Longrightarrow> ascii k \<Longrightarrow>
   js_includes (xs @ ys) (k # ks) \<longleftrightarrow> js_includes ys (k # ks)"
  by (induction xs) auto

lemma lower_point_tail:
  assumes "unicode_lowering lo" and "token cp"
  shows "\<exists>b bs. lower_point lo pre cp post = b # bs \<and> (\<forall>x\<in>set bs. \<not> ascii x)"
  using assms
proof (cases rule: lower_point_cases [where pre = pre and post = post])
  case (ascii c)
  then show ?thesis by simp
next
  case kelvin
  then show ?thesis by simp
next
  case dotted
  then show ?thesis using combining_dot_not_ascii by simp
next
  case other
  then show ?thesis by (cases "lower_point lo pre cp post") auto
qed

lemma js_includes_lower_points:
  assumes "unicode_lowering lo" and "\<forall>cp\<in>set cps. token cp" and "word (k # ks)"
  shows "js_includes (lower_points lo pre cps) (k # ks)
         \<longleftrightarrow> (\<exists>p q. cps = p @ q \<and> tokens_start q (k # ks))"
  using assms(2)
proof (induction cps arbitrary: pre)
  case Nil
  show ?case by simp
next
  case (Cons cp cps)
  have tok: "token cp" and toks: "\<forall>cp\<in>set cps. token cp"
    using Cons.prems by simp_all
  have k: "ascii k" using assms(3) by (auto dest: word_hd letter_ascii)
  let ?L = "lower_points lo (pre @ [cp]) cps"
  obtain b bs where out: "lower_point lo pre cp cps = b # bs" and bs: "\<forall>x\<in>set bs. \<not> ascii x"
    using lower_point_tail [OF assms(1) tok] by blast
  have "js_includes (lower_points lo pre (cp # cps)) (k # ks)
      \<longleftrightarrow> startsWith (lower_points lo pre (cp # cps)) (k # ks) \<or> js_includes (bs @ ?L) (k # ks)"
    by (simp add: out)
  also have "js_includes (bs @ ?L) (k # ks) \<longleftrightarrow> js_includes ?L (k # ks)"
    using bs k by (rule js_includes_non_ascii)
  also have "startsWith (lower_points lo pre (cp # cps)) (k # ks) \<longleftrightarrow> tokens_start (cp # cps) (k # ks)"
    using assms(1) Cons.prems assms(3) by (rule startsWith_lower_points)
  also have "js_includes ?L (k # ks) \<longleftrightarrow> (\<exists>p q. cps = p @ q \<and> tokens_start q (k # ks))"
    using Cons.IH [OF toks] .
  finally have step: "js_includes (lower_points lo pre (cp # cps)) (k # ks)
      \<longleftrightarrow> tokens_start (cp # cps) (k # ks) \<or> (\<exists>p q. cps = p @ q \<and> tokens_start q (k # ks))" .
  show ?case
  proof
    assume "js_includes (lower_points lo pre (cp # cps)) (k # ks)"
    then consider "tokens_start (cp # cps) (k # ks)"
      | p q where "cps = p @ q" "tokens_start q (k # ks)"
      using step by blast
    then show "\<exists>p q. cp # cps = p @ q \<and> tokens_start q (k # ks)"
    proof cases
      case 1
      then have "cp # cps = [] @ (cp # cps) \<and> tokens_start (cp # cps) (k # ks)" by simp
      then show ?thesis by blast
    next
      case 2
      then have "cp # cps = (cp # p) @ q \<and> tokens_start q (k # ks)" by simp
      then show ?thesis by blast
    qed
  next
    assume "\<exists>p q. cp # cps = p @ q \<and> tokens_start q (k # ks)"
    then obtain p q where pq: "cp # cps = p @ q" "tokens_start q (k # ks)" by blast
    show "js_includes (lower_points lo pre (cp # cps)) (k # ks)"
    proof (cases p)
      case Nil
      with pq have "tokens_start (cp # cps) (k # ks)" by simp
      then show ?thesis using step by blast
    next
      case (Cons a p')
      with pq have "cps = p' @ q" by simp
      then show ?thesis using step pq(2) by blast
    qed
  qed
qed

lemma js_includes_toLowerCase:
  assumes "unicode_lowering lo" and "word (k # ks)"
  shows "js_includes (toLowerCase lo nm) (k # ks) \<longleftrightarrow> matches_keyword nm (k # ks)"
proof -
  have "js_includes (toLowerCase lo nm) (k # ks)
      \<longleftrightarrow> (\<exists>p q. code_points nm = p @ q \<and> tokens_start q (k # ks))"
    unfolding toLowerCase_def
    using assms(1) _ assms(2) by (rule js_includes_lower_points) (simp add: code_points_tokens)
  also have "\<dots> \<longleftrightarrow> (\<exists>p part post. code_points nm = p @ part @ post
      \<and> list_all2 same_letter part (k # ks))"
    unfolding tokens_start_iff by blast
  finally show ?thesis unfolding matches_keyword_def .
qed

lemma keywords_word:
  "word ''breakfast''" "word ''lunch''" "word ''dinner''" "word ''snack''"
  by (simp_all add: word_def letter_def)

lemma mealPeriod_parseResponse_block:
  "unicode_lowering lowerOther \<Longrightarrow>
   mealPeriod (parseResponse_block lowerOther block) = spec_mealPeriod (blockName block)"
  by (simp add: parseResponse_block_def spec_mealPeriod_def Let_def
      js_includes_toLowerCase keywords_word)

subsection \<open>The shape of the result\<close>

lemma length_menus: "length (menus (parseResponse lowerOther newDate r)) = length (menuSchedules r)"
  by (simp add: parseResponse_def Let_def)

lemma menus_nth:
  "i < length (menuSchedules r) \<Longrightarrow>
   menus (parseResponse lowerOther newDate r) ! i
     = parseResponse_schedule lowerOther newDate (GetMenuResponse.school (parseResponse lowerOther newDate r))
         (menuSchedules r ! i)"
  by (simp add: parseResponse_def Let_def)

lemma meals_nth:
  "i < length (menuSchedules r) \<Longrightarrow>
   meals (menus (parseResponse lowerOther newDate r) ! i) = map (parseResponse_block lowerOther) (menuBlocks (menuSchedules r ! i))"
  by (simp add: menus_nth parseResponse_schedule_def Let_def)

lemma menu_block_eq:
  "is_block r i j \<Longrightarrow> menu_block (parseResponse lowerOther newDate r) i j = parseResponse_block lowerOther (raw_block r i j)"
  by (simp add: is_block_def menu_block_def raw_block_def meals_nth)

lemma cafeteriaLines_block:
  "cafeteriaLines (parseResponse_block lowerOther block) = map parseResponse_line (data (cafeteriaLineList block))"
  by (simp add: parseResponse_block_def Let_def)

lemma menu_line_eq:
  "is_line r i j k \<Longrightarrow> menu_line (parseResponse lowerOther newDate r) i j k = parseResponse_line (raw_line r i j k)"
  by (simp add: is_line_def menu_line_def raw_line_def menu_block_eq cafeteriaLines_block)

lemma items_line:
  "items (parseResponse_line line) = map parseResponse_item (data (foodItemList line))"
  by (simp add: parseResponse_line_def)

lemma menu_item_eq:
  "is_item r i j k l \<Longrightarrow> menu_item (parseResponse lowerOther newDate r) i j k l = parseResponse_item (raw_item r i j k l)"
  by (simp add: is_item_def menu_item_def raw_item_def menu_line_eq items_line)

text \<open>
  Claim C3. For every menu block of a raw response, the meal period of the mapped block
  is the one the specification gives for the block's name: case-insensitive substring
  match of the keywords breakfast, lunch, dinner, snack in this order, the first match
  wins, Lunch when none matches. This holds for every table of the runtime that lowers
  the code points beyond ASCII to no ASCII byte.
\<close>

theorem mealPeriod_priority:
  "unicode_lowering lowerOther \<and> is_block r i j \<longrightarrow>
     mealPeriod (menu_block (parseResponse lowerOther newDate r) i j)
       = spec_mealPeriod (blockName (raw_block r i j))"
  by (simp add: menu_block_eq mealPeriod_parseResponse_block)

text \<open>
  The block named "BreakfastLunch" is a Breakfast block, "DINNER" a Dinner block, "SNAC"
  followed by the Kelvin sign a Snack block, and "Supper" a Lunch block.
\<close>

theorem mealPeriod_priority_witness:
  "unicode_lowering sample_lowering
   \<and> is_block (sample_blocks [''BreakfastLunch'']) 0 0
   \<and> mealPeriod (menu_block (parseResponse sample_lowering sample_newDate
         (sample_blocks [''BreakfastLunch''])) 0 0) = Breakfast
   \<and> spec_mealPeriod ''BreakfastLunch'' = Breakfast
   \<and> mealPeriod (menu_block (parseResponse sample_lowering sample_newDate
         (sample_blocks [''DINNER''])) 0 0) = Dinner
   \<and> spec_mealPeriod ''DINNER'' = Dinner
   \<and> mealPeriod (menu_block (parseResponse sample_lowering sample_newDate
         (sample_blocks [''SNAC'' @ kelvin_sign])) 0 0) = Snack
   \<and> spec_mealPeriod (''SNAC'' @ kelvin_sign) = Snack
   \<and> mealPeriod (menu_block (parseResponse sample_lowering sample_newDate
         (sample_blocks [''Supper''])) 0 0) = Lunch
   \<and> spec_mealPeriod ''Supper'' = Lunch"
proof -
  have lo: "unicode_lowering sample_lowering"
    by (simp add: unicode_lowering_def sample_lowering_def)
  have b: "is_block (sample_blocks [nm]) 0 0" for nm
    by (simp add: is_block_def sample_blocks_def)
  have n: "blockName (raw_block (sample_blocks [nm]) 0 0) = nm" for nm
    by (simp add: raw_block_def sample_blocks_def)
  have m: "mealPeriod (menu_block (parseResponse sample_lowering sample_newDate
      (sample_blocks [nm])) 0 0) = mealPeriod (parseResponse_block sample_lowering
        \<lparr> blockName = nm, cafeteriaLineList = \<lparr> data = [] \<rparr> \<rparr>)" for nm
    by (simp add: menu_block_def sample_blocks_def parseResponse_def parseResponse_schedule_def
        Let_def)
  note eval = parseResponse_block_def toLowerCase_def lower_point_def lower_char_def ascii_def
    continuation_def kelvin_sign_def capital_I_dot_def char_of_eq_iff Let_def
  have m1: "mealPeriod (menu_block (parseResponse sample_lowering sample_newDate
      (sample_blocks [''BreakfastLunch''])) 0 0) = Breakfast"
    unfolding m by (simp add: eval)
  have m2: "mealPeriod (menu_block (parseResponse sample_lowering sample_newDate
      (sample_blocks [''DINNER''])) 0 0) = Dinner"
    unfolding m by (simp add: eval)
  have m3: "mealPeriod (menu_block (parseResponse sample_lowering sample_newDate
      (sample_blocks [''SNAC'' @ kelvin_sign])) 0 0) = Snack"
    unfolding m by (simp add: eval)
  have m4: "mealPeriod (menu_block (parseResponse sample_lowering sample_newDate
      (sample_blocks [''Supper''])) 0 0) = Lunch"
    unfolding m by (simp add: eval)
  have s1: "spec_mealPeriod ''BreakfastLunch'' = Breakfast"
    using mealPeriod_priority [of sample_lowering "sample_blocks [''BreakfastLunch'']" 0 0
        sample_newDate] lo b
    by (simp only: n m1 simp_thms)
  have s2: "spec_mealPeriod ''DINNER'' = Dinner"
    using mealPeriod_priority [of sample_lowering "sample_blocks [''DINNER'']" 0 0
        sample_newDate] lo b
    by (simp only: n m2 simp_thms)
  have s3: "spec_mealPeriod (''SNAC'' @ kelvin_sign) = Snack"
    using mealPeriod_priority [of sample_lowering "sample_blocks [''SNAC'' @ kelvin_sign]" 0 0
        sample_newDate] lo b
    by (simp only: n m3 simp_thms)
  have s4: "spec_mealPeriod ''Supper'' = Lunch"
    using mealPeriod_priority [of sample_lowering "sample_blocks [''Supper'']" 0 0
        sample_newDate] lo b
    by (simp only: n m4 simp_thms)
  show ?thesis
    using lo b [of "''BreakfastLunch''"] m1 m2 m3 m4 s1 s2 s3 s4 by (simp only: simp_thms)
qed

text \<open>
  Claim C5. The mapped result has as many menus as the raw response has schedules; its
  school is the top-level location, field by field, and every daily menu carries that
  same school; blocks, lines and items are as many as in the raw response and stand at
  the position of the raw block, line and item they are mapped from, so nothing is
  sorted or removed.
\<close>

theorem parseResponse_shape:
  "length (menus (parseResponse lowerOther newDate r)) = length (menuSchedules r)
   \<and> GetMenuResponse.school (parseResponse lowerOther newDate r)
       = \<lparr> MealViewerSchool.name = PhysicalLocation.name (physicalLocation r),
           MealViewerSchool.address = PhysicalLocation.address (physicalLocation r),
           MealViewerSchool.city = PhysicalLocation.city (physicalLocation r),
           MealViewerSchool.state = PhysicalLocation.state (physicalLocation r),
           MealViewerSchool.latitude = PhysicalLocation.latitude (physicalLocation r),
           MealViewerSchool.longitude = PhysicalLocation.longitude (physicalLocation r) \<rparr>
   \<and> (i < length (menuSchedules r) \<longrightarrow>
         DailyMenu.school (menus (parseResponse lowerOther newDate r) ! i)
           = GetMenuResponse.school (parseResponse lowerOther newDate r)
         \<and> length (meals (menus (parseResponse lowerOther newDate r) ! i))
           = length (menuBlocks (menuSchedules r ! i)))
   \<and> (is_block r i j \<longrightarrow>
         length (cafeteriaLines (menu_block (parseResponse lowerOther newDate r) i j))
           = length (data (cafeteriaLineList (raw_block r i j))))
   \<and> (is_line r i j k \<longrightarrow>
         CafeteriaLine.name (menu_line (parseResponse lowerOther newDate r) i j k)
           = RawCafeteriaLine.name (raw_line r i j k)
         \<and> length (items (menu_line (parseResponse lowerOther newDate r) i j k))
           = length (data (foodItemList (raw_line r i j k))))
   \<and> (is_item r i j k l \<longrightarrow>
         menu_item (parseResponse lowerOther newDate r) i j k l = parseResponse_item (raw_item r i j k l))"
proof (intro conjI impI)
  show "length (menus (parseResponse lowerOther newDate r)) = length (menuSchedules r)"
    by (rule length_menus)
  show "GetMenuResponse.school (parseResponse lowerOther newDate r)
       = \<lparr> MealViewerSchool.name = PhysicalLocation.name (physicalLocation r),
           MealViewerSchool.address = PhysicalLocation.address (physicalLocation r),
           MealViewerSchool.city = PhysicalLocation.city (physicalLocation r),
           MealViewerSchool.state = PhysicalLocation.state (physicalLocation r),
           MealViewerSchool.latitude = PhysicalLocation.latitude (physicalLocation r),
           MealViewerSchool.longitude = PhysicalLocation.longitude (physicalLocation r) \<rparr>"
    by (simp add: parseResponse_def Let_def)
next
  assume "i < length (menuSchedules r)"
  then show "DailyMenu.school (menus (parseResponse lowerOther newDate r) ! i)
           = GetMenuResponse.school (parseResponse lowerOther newDate r)"
    by (simp add: menus_nth parseResponse_schedule_def Let_def)
next
  assume "i < length (menuSchedules r)"
  then show "length (meals (menus (parseResponse lowerOther newDate r) ! i))
           = length (menuBlocks (menuSchedules r ! i))"
    by (simp add: meals_nth)
next
  assume "is_block r i j"
  then show "length (cafeteriaLines (menu_block (parseResponse lowerOther newDate r) i j))
           = length (data (cafeteriaLineList (raw_block r i j)))"
    by (simp add: menu_block_eq cafeteriaLines_block)
next
  assume "is_line r i j k"
  then show "CafeteriaLine.name (menu_line (parseResponse lowerOther newDate r) i j k)
           = RawCafeteriaLine.name (raw_line r i j k)"
    by (simp add: menu_line_eq parseResponse_line_def)
next
  assume "is_line r i j k"
  then show "length (items (menu_line (parseResponse lowerOther newDate r) i j k))
           = length (data (foodItemList (raw_line r i j k)))"
    by (simp add: menu_line_eq items_line)
next
  assume "is_item r i j k l"
  then show "menu_item (parseResponse lowerOther newDate r) i j k l = parseResponse_item (raw_item r i j k l)"
    by (rule menu_item_eq)
qed

text \<open>
  Claim C6. For every food item of a raw response, the mapped item has the raw name,
  type and serving size; its \<open>altName\<close> and \<open>description\<close> are present exactly when
  the raw value is a nonempty string, and are then that string; nutrition and allergens
  are absent.
\<close>

theorem parseResponse_item_fields:
  "is_item r i j k l \<longrightarrow>
     MenuItem.name (menu_item (parseResponse lowerOther newDate r) i j k l) = item_Name (raw_item r i j k l)
     \<and> type (menu_item (parseResponse lowerOther newDate r) i j k l) = item_Type (raw_item r i j k l)
     \<and> servingSize (menu_item (parseResponse lowerOther newDate r) i j k l) = serving_Size (raw_item r i j k l)
     \<and> (\<forall>s. altName (menu_item (parseResponse lowerOther newDate r) i j k l) = Some s
              \<longleftrightarrow> item_AltName (raw_item r i j k l) = Some s \<and> s \<noteq> [])
     \<and> (\<forall>s. MenuItem.description (menu_item (parseResponse lowerOther newDate r) i j k l) = Some s
              \<longleftrightarrow> RawFoodItem.description (raw_item r i j k l) = Some s \<and> s \<noteq> [])
     \<and> nutrition (menu_item (parseResponse lowerOther newDate r) i j k l) = None
     \<and> allergens (menu_item (parseResponse lowerOther newDate r) i j k l) = None"
proof
  assume "is_item r i j k l"
  then have eq: "menu_item (parseResponse lowerOther newDate r) i j k l = parseResponse_item (raw_item r i j k l)"
    by (rule menu_item_eq)
  have opt: "or_undefined v = Some s \<longleftrightarrow> v = Some s \<and> s \<noteq> []" for v s
    by (auto simp: or_undefined_def split: option.splits)
  show "MenuItem.name (menu_item (parseResponse lowerOther newDate r) i j k l) = item_Name (raw_item r i j k l)
     \<and> type (menu_item (parseResponse lowerOther newDate r) i j k l) = item_Type (raw_item r i j k l)
     \<and> servingSize (menu_item (parseResponse lowerOther newDate r) i j k l) = serving_Size (raw_item r i j k l)
     \<and> (\<forall>s. altName (menu_item (parseResponse lowerOther newDate r) i j k l) = Some s
              \<longleftrightarrow> item_AltName (raw_item r i j k l) = Some s \<and> s \<noteq> [])
     \<and> (\<forall>s. MenuItem.description (menu_item (parseResponse lowerOther newDate r) i j k l) = Some s
              \<longleftrightarrow> RawFoodItem.description (raw_item r i j k l) = Some s \<and> s \<noteq> [])
     \<and> nutrition (menu_item (parseResponse lowerOther newDate r) i j k l) = None
     \<and> allergens (menu_item (parseResponse lowerOther newDate r) i j k l) = None"
    unfolding eq by (simp add: parseResponse_item_def opt)
qed

lemma sample_positions:
  "0 < length (menuSchedules sample_response)"
  "is_block sample_response 0 0"
  "is_line sample_response 0 0 0"
  "is_item sample_response 0 0 0 0"
  by (simp_all add: is_item_def is_line_def is_block_def raw_line_def raw_block_def
      sample_response_def)

lemma sample_raw:
  "length (menuSchedules sample_response) = 1"
  "length (menuBlocks (menuSchedules sample_response ! 0)) = 1"
  "length (data (cafeteriaLineList (raw_block sample_response 0 0))) = 1"
  "RawCafeteriaLine.name (raw_line sample_response 0 0 0) = ''Main Line''"
  "length (data (foodItemList (raw_line sample_response 0 0 0))) = 2"
  "raw_item sample_response 0 0 0 0 =
     \<lparr> item_Name = ''Pizza'', item_AltName = Some [],
       RawFoodItem.description = Some ''Cheese pizza'',
       item_Type = ''Entree'', serving_Size = ''2 slices'' \<rparr>"
  by (simp_all add: raw_item_def raw_line_def raw_block_def sample_response_def)

theorem parseResponse_shape_witness:
  "0 < length (menuSchedules sample_response)
   \<and> is_block sample_response 0 0 \<and> is_line sample_response 0 0 0
   \<and> is_item sample_response 0 0 0 0
   \<and> length (menus (parseResponse sample_lowering sample_newDate sample_response)) = 1
   \<and> DailyMenu.school (menus (parseResponse sample_lowering sample_newDate sample_response) ! 0)
       = GetMenuResponse.school (parseResponse sample_lowering sample_newDate sample_response)
   \<and> length (meals (menus (parseResponse sample_lowering sample_newDate sample_response) ! 0)) = 1
   \<and> length (cafeteriaLines (menu_block (parseResponse sample_lowering sample_newDate sample_response) 0 0)) = 1
   \<and> CafeteriaLine.name (menu_line (parseResponse sample_lowering sample_newDate sample_response) 0 0 0)
       = ''Main Line''
   \<and> length (items (menu_line (parseResponse sample_lowering sample_newDate sample_response) 0 0 0)) = 2
   \<and> MenuItem.name (menu_item (parseResponse sample_lowering sample_newDate sample_response) 0 0 0 0)
       = ''Pizza''"
  using parseResponse_shape [of sample_lowering sample_newDate sample_response 0 0 0 0]
  by (simp add: sample_positions sample_raw parseResponse_item_def)

theorem parseResponse_item_fields_witness:
  "is_item sample_response 0 0 0 0
   \<and> item_AltName (raw_item sample_response 0 0 0 0) = Some []
   \<and> RawFoodItem.description (raw_item sample_response 0 0 0 0) = Some ''Cheese pizza''
   \<and> MenuItem.name (menu_item (parseResponse sample_lowering sample_newDate sample_response) 0 0 0 0) = ''Pizza''
   \<and> type (menu_item (parseResponse sample_lowering sample_newDate sample_response) 0 0 0 0) = ''Entree''
   \<and> servingSize (menu_item (parseResponse sample_lowering sample_newDate sample_response) 0 0 0 0) = ''2 slices''
   \<and> MenuItem.description (menu_item (parseResponse sample_lowering sample_newDate sample_response) 0 0 0 0)
       = Some ''Cheese pizza''
   \<and> altName (menu_item (parseResponse sample_lowering sample_newDate sample_response) 0 0 0 0) = None"
proof -
  let ?res = "parseResponse sample_lowering sample_newDate sample_response"
  note pizza = parseResponse_item_fields [of sample_response 0 0 0 0 sample_lowering sample_newDate,
      THEN mp, OF sample_positions(4)]
  have none: "(\<forall>s. (v = Some s) = False) \<Longrightarrow> v = None" for v :: "string option"
    by (cases v) simp_all
  have "MenuItem.name (menu_item ?res 0 0 0 0) = ''Pizza''"
    "type (menu_item ?res 0 0 0 0) = ''Entree''"
    "servingSize (menu_item ?res 0 0 0 0) = ''2 slices''"
    "MenuItem.description (menu_item ?res 0 0 0 0) = Some ''Cheese pizza''"
    "altName (menu_item ?res 0 0 0 0) = None"
    using pizza by (simp_all add: sample_raw none)
  then show ?thesis using sample_positions(4) by (simp add: sample_raw)
qed


section \<open>The error classifier\<close>

text \<open>
  Claim C2. Every caught value is classified as SCHOOL_NOT_FOUND, NETWORK_ERROR or
  API_ERROR. A transport failure with status 404 gives SCHOOL_NOT_FOUND with the fixed
  message, whatever its code; otherwise the codes ECONNREFUSED and ETIMEDOUT give
  NETWORK_ERROR with the code in the message; every other transport failure gives
  API_ERROR with the failure's message; a value that is no transport failure gives
  API_ERROR with its message or its string form.
\<close>

theorem handleError_classification:
  "(code (handleError f) = SCHOOL_NOT_FOUND \<or> code (handleError f) = NETWORK_ERROR
      \<or> code (handleError f) = API_ERROR)
   \<and> handleError (AxiosError (Some 404) anyCode anyMessage)
       = \<lparr> message = ''School not found. Please check the school name and try again.'',
           code = SCHOOL_NOT_FOUND \<rparr>
   \<and> (status \<noteq> Some 404 \<and> (errCode = ''ECONNREFUSED'' \<or> errCode = ''ETIMEDOUT'') \<longrightarrow>
         handleError (AxiosError status (Some errCode) msg)
           = \<lparr> message = ''Network error: '' @ errCode @ ''. Please check your internet connection.'',
               code = NETWORK_ERROR \<rparr>
         \<and> js_includes (message (handleError (AxiosError status (Some errCode) msg))) errCode)
   \<and> (status \<noteq> Some 404 \<and> otherCode \<noteq> Some ''ECONNREFUSED'' \<and> otherCode \<noteq> Some ''ETIMEDOUT'' \<longrightarrow>
         handleError (AxiosError status otherCode msg)
           = \<lparr> message = ''API request failed: '' @ msg, code = API_ERROR \<rparr>)
   \<and> (\<not> isAxiosError f \<longrightarrow>
         code (handleError f) = API_ERROR
         \<and> (\<exists>cause. (f = OtherError cause \<or> f = NonError cause)
               \<and> message (handleError f) = ''Unexpected error: '' @ cause))"
proof (intro conjI impI)
  show "code (handleError f) = SCHOOL_NOT_FOUND \<or> code (handleError f) = NETWORK_ERROR
      \<or> code (handleError f) = API_ERROR"
    by (cases f) simp_all
  show "handleError (AxiosError (Some 404) anyCode anyMessage)
       = \<lparr> message = ''School not found. Please check the school name and try again.'',
           code = SCHOOL_NOT_FOUND \<rparr>"
    by simp
next
  assume h: "status \<noteq> Some 404 \<and> (errCode = ''ECONNREFUSED'' \<or> errCode = ''ETIMEDOUT'')"
  then show eq: "handleError (AxiosError status (Some errCode) msg)
           = \<lparr> message = ''Network error: '' @ errCode @ ''. Please check your internet connection.'',
               code = NETWORK_ERROR \<rparr>"
    by auto
  have "js_includes (''Network error: '' @ errCode @ ''. Please check your internet connection.'') errCode"
    by (rule js_includes_middle)
  then show "js_includes (message (handleError (AxiosError status (Some errCode) msg))) errCode"
    by (simp only: eq MealViewerError.simps)
next
  assume "status \<noteq> Some 404 \<and> otherCode \<noteq> Some ''ECONNREFUSED'' \<and> otherCode \<noteq> Some ''ETIMEDOUT''"
  then show "handleError (AxiosError status otherCode msg)
           = \<lparr> message = ''API request failed: '' @ msg, code = API_ERROR \<rparr>"
    by simp
next
  assume "\<not> isAxiosError f"
  then show "code (handleError f) = API_ERROR"
    by (cases f) simp_all
next
  assume "\<not> isAxiosError f"
  then show "\<exists>cause. (f = OtherError cause \<or> f = NonError cause)
               \<and> message (handleError f) = ''Unexpected error: '' @ cause"
    by (cases f) simp_all
qed

theorem handleError_classification_witness:
  "(None :: int option) \<noteq> Some 404
   \<and> handleError (AxiosError None (Some ''ECONNREFUSED'') ''Connection refused'')
       = \<lparr> message = ''Network error: ECONNREFUSED. Please check your internet connection.'',
           code = NETWORK_ERROR \<rparr>
   \<and> (None :: string option) \<noteq> Some ''ECONNREFUSED'' \<and> (None :: string option) \<noteq> Some ''ETIMEDOUT''
   \<and> handleError (AxiosError None None ''Server error'')
       = \<lparr> message = ''API request failed: Server error'', code = API_ERROR \<rparr>
   \<and> \<not> isAxiosError (OtherError ''Unknown error'')
   \<and> code (handleError (OtherError ''Unknown error'')) = API_ERROR"
proof -
  note c = handleError_classification [of "OtherError ''Unknown error''" _ _ None
      "''ECONNREFUSED''" "''Connection refused''" None]
  have "handleError (AxiosError None (Some ''ECONNREFUSED'') ''Connection refused'')
       = \<lparr> message = ''Network error: ECONNREFUSED. Please check your internet connection.'',
           code = NETWORK_ERROR \<rparr>"
    using c by simp
  moreover have "code (handleError (OtherError ''Unknown error'')) = API_ERROR"
    using c by simp
  moreover have "handleError (AxiosError None None ''Server error'')
       = \<lparr> message = ''API request failed: Server error'', code = API_ERROR \<rparr>"
    using handleError_classification [of "OtherError ''Unknown error''" _ _ None
      "''ECONNREFUSED''" "''Server error''" None] by simp
  ultimately show ?thesis by simp
qed


section \<open>Construction of the client\<close>

text \<open>
  Claim C10. A timeout of 0, an empty base URL and an empty user agent are replaced by
  the defaults, as absent values are; any other value is kept.
\<close>

theorem constructor_falsy_defaults:
  "(MealViewerClientConfig.timeout config = Some 0 \<or> MealViewerClientConfig.timeout config = None \<longrightarrow>
      AxiosCreateConfig.timeout (axios (constructor config)) = 30000)
   \<and> (MealViewerClientConfig.baseURL config = Some [] \<or> MealViewerClientConfig.baseURL config = None \<longrightarrow>
      AxiosCreateConfig.baseURL (axios (constructor config)) = ''https://api.mealviewer.com/api/v4'')
   \<and> (userAgent config = Some [] \<or> userAgent config = None \<longrightarrow>
      headers (axios (constructor config))
        = [(''User-Agent'', ''BrandCast/FamilyCast MealViewer Integration'')])
   \<and> (MealViewerClientConfig.timeout config = Some t \<and> t \<noteq> 0 \<longrightarrow>
      AxiosCreateConfig.timeout (axios (constructor config)) = t)
   \<and> (MealViewerClientConfig.baseURL config = Some url \<and> url \<noteq> [] \<longrightarrow>
      AxiosCreateConfig.baseURL (axios (constructor config)) = url)
   \<and> (userAgent config = Some ua \<and> ua \<noteq> [] \<longrightarrow>
      headers (axios (constructor config)) = [(''User-Agent'', ua)])"
  by (auto simp: constructor_def or_number_def or_string_def)

theorem constructor_falsy_defaults_witness:
  "constructor \<lparr> MealViewerClientConfig.baseURL = Some [],
       MealViewerClientConfig.timeout = Some 0, userAgent = Some [],
       MealViewerClientConfig.debug = None \<rparr>
   = \<lparr> axios = \<lparr> AxiosCreateConfig.baseURL = ''https://api.mealviewer.com/api/v4'',
                 AxiosCreateConfig.timeout = 30000,
                 headers = [(''User-Agent'', ''BrandCast/FamilyCast MealViewer Integration'')] \<rparr>,
       MealViewerClient.debug = False \<rparr>"
proof -
  let ?c = "\<lparr> MealViewerClientConfig.baseURL = Some [],
       MealViewerClientConfig.timeout = Some 0, userAgent = Some [],
       MealViewerClientConfig.debug = None \<rparr>"
  have "AxiosCreateConfig.timeout (axios (constructor ?c)) = 30000"
    and "AxiosCreateConfig.baseURL (axios (constructor ?c)) = ''https://api.mealviewer.com/api/v4''"
    and "headers (axios (constructor ?c))
        = [(''User-Agent'', ''BrandCast/FamilyCast MealViewer Integration'')]"
    using constructor_falsy_defaults [of ?c] by simp_all
  moreover have "MealViewerClient.debug (constructor ?c) = False"
    by (simp add: constructor_def or_boolean_def)
  ultimately show ?thesis
    by (intro MealViewerClient.equality AxiosCreateConfig.equality) simp_all
qed

end
